theory Spec2Isabelle
  imports Complex_Main
begin

section \<open>Bank against ERP reconciliation (conciliacao\_conexa\_banco\_sem\_saldo.py)\<close>

text \<open>
  The script reads two spreadsheets into pandas frames, normalises their columns
  (\<open>ler_excel_banco\<close>, \<open>ler_excel_conexa\<close>) and pairs every bank outflow with one ERP
  payment of the same absolute value (\<open>conciliar_linha_a_linha\<close>).

  Conventions of the embedding.
  \<^item> A Python \<open>str\<close> is a \<open>string\<close> whose characters are code points below 256, so
    that the header of the ERP's settlement date is written with the code points 0xE7
    (c with cedilla) and 0xE3 (a with tilde) in it.
  \<^item> A finite double is the rational number it is equal to. \<open>None\<close> stands for NaN,
    \<open>pd.NA\<close> and \<open>pd.NaT\<close>.
  \<^item> \<open>pd.read_excel\<close> and \<open>pd.to_datetime\<close> are library code: the frame that
    \<open>read_excel\<close> returns is the input of the readers, and \<open>to_datetime\<close> is a
    parameter of them. So is the step of \<open>pd.to_numeric\<close> that makes a double of the
    digits and the exponent it has read.
\<close>

subsection \<open>Cells, labels, frames and errors\<close>

type_synonym timestamp = int

text \<open>A cell of a frame read from a spreadsheet: text, a number, or empty (NaN).\<close>

datatype cell = Texto string | Numero rat | Vazio

text \<open>
  A column label. \<open>read_excel\<close> makes a \<open>str\<close> of a header cell that holds text, and
  keeps a number or a date where the header cell holds one.
\<close>

datatype label = Rotulo string | RotuloNumero rat | RotuloData timestamp

text \<open>
  A frame as \<open>read_excel\<close> returns it: its columns in order, each a label and the cells
  below it. Labels are distinct and all columns have the same length (pandas renames a
  repeated header and pads short columns).
\<close>

type_synonym dataframe = "(label \<times> cell list) list"

definition columns :: "dataframe \<Rightarrow> label list" where
  "columns df = map fst df"

text \<open>\<open>len(df.index)\<close>: the number of rows, the length of every column.\<close>

definition nrows :: "dataframe \<Rightarrow> nat" where
  "nrows df = (case df of [] \<Rightarrow> 0 | (c, xs) # rest \<Rightarrow> length xs)"

text \<open>
  \<open>ValueError faltando encontradas\<close> is the error both readers raise: the two lists
  are the ones interpolated into its message. \<open>KeyError\<close> is what a lookup by a label
  or a row index that does not exist raises. \<open>AttributeError\<close> is what \<open>c.strip()\<close>
  raises on a label that is not a \<open>str\<close>.
\<close>

datatype error = ValueError "string list" "label list" | KeyError | AttributeError

text \<open>\<open>df[c]\<close>: the column labelled \<open>c\<close>.\<close>

definition getitem :: "dataframe \<Rightarrow> label \<Rightarrow> error + cell list" where
  "getitem df c = (case map_of df c of None \<Rightarrow> Inl KeyError | Some xs \<Rightarrow> Inr xs)"

subsection \<open>Strings\<close>

text \<open>
  \<open>str.strip()\<close> removes the characters Python counts as white space from both ends;
  below 256 these are 0x09 to 0x0D, 0x1C to 0x20, 0x85 and 0xA0.
\<close>

definition py_isspace :: "char \<Rightarrow> bool" where
  "py_isspace c \<longleftrightarrow>
     c \<in> set [CHR 0x09, CHR 0x0A, CHR 0x0B, CHR 0x0C, CHR 0x0D,
               CHR 0x1C, CHR 0x1D, CHR 0x1E, CHR 0x1F, CHR 0x20, CHR 0x85, CHR 0xA0]"

definition strip :: "string \<Rightarrow> string" where
  "strip s = rev (dropWhile py_isspace (rev (dropWhile py_isspace s)))"

text \<open>\<open>c.strip()\<close> on a label: only a \<open>str\<close> has the method.\<close>

fun strip_label :: "label \<Rightarrow> error + string" where
  "strip_label (Rotulo s) = Inr (strip s)"
| "strip_label (RotuloNumero r) = Inl AttributeError"
| "strip_label (RotuloData t) = Inl AttributeError"

text \<open>\<open>.str.replace(",", ".", regex=False)\<close> on one string.\<close>

definition replace_comma :: "string \<Rightarrow> string" where
  "replace_comma s = map (\<lambda>c. if c = CHR '','' then CHR ''.'' else c) s"

subsection \<open>Numeric conversion\<close>

text \<open>
  What \<open>pd.to_numeric\<close> makes of a string: NaN (\<open>None\<close>), a finite double, or an
  infinity (\<open>Infinito True\<close> is the negative one).
\<close>

datatype numero = Finito rat | Infinito bool

fun negar :: "numero \<Rightarrow> numero" where
  "negar (Finito r) = Finito (- r)"
| "negar (Infinito b) = Infinito (\<not> b)"

text \<open>
  \<open>pd.to_numeric(..., errors="coerce")\<close> converts each string on its own. The parser's
  \<open>to_double\<close> reads optional ASCII white space, an optional sign, decimal digits with
  at most one point (at least one digit in all), an optional exponent \<open>e\<close> or \<open>E\<close> with
  its own sign and at least one digit, optional white space, and then the end of the
  string. No thousands separator is accepted. From the digits and the decimal exponent
  it then computes a double; that computation (its rounding, what it does on overflow
  and underflow, where it gives up) is the parameter \<open>rd\<close>: \<open>rd ds e\<close> is what the
  parser makes of the digits \<open>ds\<close> scaled by ten to the \<open>e\<close>, \<open>None\<close> when it fails.
\<close>

definition isspace_ascii :: "char \<Rightarrow> bool" where
  "isspace_ascii c \<longleftrightarrow>
     c \<in> set [CHR 0x20, CHR 0x09, CHR 0x0A, CHR 0x0B, CHR 0x0C, CHR 0x0D]"

definition isdigit_ascii :: "char \<Rightarrow> bool" where
  "isdigit_ascii c \<longleftrightarrow> c \<in> set ''0123456789''"

definition digit_value :: "char \<Rightarrow> nat" where
  "digit_value c = of_char c - 48"

definition digits_value :: "string \<Rightarrow> nat" where
  "digits_value ds = foldl (\<lambda>n c. 10 * n + digit_value c) 0 ds"

text \<open>An optional sign at the head of a string: whether it is a minus, and the rest.\<close>

fun take_sign :: "string \<Rightarrow> bool \<times> string" where
  "take_sign [] = (False, [])"
| "take_sign (c # r) =
     (if c = CHR ''-'' then (True, r)
      else if c = CHR ''+'' then (False, r)
      else (False, c # r))"

text \<open>An optional point followed by digits: the digits, and the rest.\<close>

fun take_fraction :: "string \<Rightarrow> string \<times> string" where
  "take_fraction [] = ([], [])"
| "take_fraction (c # r) =
     (if c = CHR ''.'' then (takeWhile isdigit_ascii r, dropWhile isdigit_ascii r)
      else ([], c # r))"

text \<open>
  An optional exponent: \<open>None\<close> when an \<open>e\<close> is followed by no digit, else the
  exponent (0 when there is none) and the rest.
\<close>

fun take_exponent :: "string \<Rightarrow> (int \<times> string) option" where
  "take_exponent [] = Some (0, [])"
| "take_exponent (c # r) =
     (if c = CHR ''e'' \<or> c = CHR ''E'' then
        (let (neg, r1) = take_sign r;
             ds = takeWhile isdigit_ascii r1
         in if ds = [] then None
            else Some ((if neg then - int (digits_value ds) else int (digits_value ds)),
                       dropWhile isdigit_ascii r1))
      else Some (0, c # r))"

definition to_double :: "(string \<Rightarrow> int \<Rightarrow> numero option) \<Rightarrow> string \<Rightarrow> numero option" where
  "to_double rd s =
     (let (neg, p1) = take_sign (dropWhile isspace_ascii s);
          ip = takeWhile isdigit_ascii p1;
          (fp, p3) = take_fraction (dropWhile isdigit_ascii p1)
      in if ip = [] \<and> fp = [] then None
         else (case take_exponent p3 of
                 None \<Rightarrow> None
               | Some (e, p4) \<Rightarrow>
                   if dropWhile isspace_ascii p4 \<noteq> [] then None
                   else (case rd (ip @ fp) (e - int (length fp)) of
                           None \<Rightarrow> None
                         | Some m \<Rightarrow> Some (if neg then negar m else m))))"

text \<open>
  A string that \<open>to_double\<close> refuses is still read when it is one of the spellings of
  infinity, compared without regard to ASCII letter case; any other string is coerced to
  NaN.
\<close>

definition lower_ascii :: "char \<Rightarrow> char" where
  "lower_ascii c =
     (case map_of (zip ''ABCDEFGHIJKLMNOPQRSTUVWXYZ'' ''abcdefghijklmnopqrstuvwxyz'') c of
        None \<Rightarrow> c
      | Some l \<Rightarrow> l)"

definition infinity_spelling :: "string \<Rightarrow> numero option" where
  "infinity_spelling s =
     (let t = map lower_ascii s
      in if t \<in> set [''inf'', ''+inf'', ''infinity'', ''+infinity''] then Some (Infinito False)
         else if t \<in> set [''-inf'', ''-infinity''] then Some (Infinito True)
         else None)"

definition floatify :: "(string \<Rightarrow> int \<Rightarrow> numero option) \<Rightarrow> string \<Rightarrow> numero option" where
  "floatify rd s = (case to_double rd s of Some x \<Rightarrow> Some x | None \<Rightarrow> infinity_spelling s)"

text \<open>
  The conversion of one cell of a \<open>Valor\<close> column:
  \<open>pd.to_numeric(col.astype(str).str.replace(",", ".", regex=False), errors="coerce")\<close>.
  A text cell is its own \<open>astype(str)\<close>. A numeric cell is printed by \<open>astype(str)\<close> in
  the shortest form that reads back as the same double, with no comma in it. An empty
  cell is printed as \<open>nan\<close>, which reads back as NaN.
\<close>

fun to_numeric :: "(string \<Rightarrow> int \<Rightarrow> numero option) \<Rightarrow> cell \<Rightarrow> numero option" where
  "to_numeric rd (Texto s) = floatify rd (replace_comma s)"
| "to_numeric rd (Numero r) = Some (Finito r)"
| "to_numeric rd Vazio = None"

subsection \<open>The readers\<close>

text \<open>
  \<open>cols = {c.strip(): c for c in df.columns}\<close>: a later column overwrites an earlier
  one with the same stripped label, and the first label that is not a \<open>str\<close> ends the
  comprehension with its \<open>AttributeError\<close>.
\<close>

fun cols_loop :: "(string \<rightharpoonup> label) \<Rightarrow> label list \<Rightarrow> error + (string \<rightharpoonup> label)" where
  "cols_loop m [] = Inr m"
| "cols_loop m (c # cs) =
     (case strip_label c of Inl e \<Rightarrow> Inl e | Inr k \<Rightarrow> cols_loop (m(k \<mapsto> c)) cs)"

definition cols_of :: "label list \<Rightarrow> error + (string \<rightharpoonup> label)" where
  "cols_of cs = cols_loop Map.empty cs"

text \<open>\<open>faltando = [c for c in obrig if c not in cols]\<close>\<close>

definition faltando :: "string list \<Rightarrow> (string \<rightharpoonup> label) \<Rightarrow> string list" where
  "faltando obrig cols = filter (\<lambda>c. cols c = None) obrig"

text \<open>The header of the settlement date, \<open>Quitacao\<close> with a cedilla and a tilde.\<close>

definition Quitacao :: string where
  "Quitacao = ''Quita'' @ [CHR 0xE7, CHR 0xE3] @ ''o''"

definition obrig_banco :: "string list" where
  "obrig_banco = [''Data'', ''Valor'']"

definition obrig_conexa :: "string list" where
  "obrig_conexa = [Quitacao, ''Valor'']"

text \<open>\<open>df[cols[k]]\<close>: both lookups raise \<open>KeyError\<close> on a key that is absent.\<close>

definition coluna :: "dataframe \<Rightarrow> (string \<rightharpoonup> label) \<Rightarrow> string \<Rightarrow> error + cell list" where
  "coluna df cols k = (case cols k of None \<Rightarrow> Inl KeyError | Some c \<Rightarrow> getitem df c)"

text \<open>
  \<open>df[cols[k]] if k in cols else v\<close>, as a column of \<open>n\<close> rows: the scalar \<open>v\<close> is
  repeated on every row.
\<close>

definition coluna_opcional ::
  "dataframe \<Rightarrow> (string \<rightharpoonup> label) \<Rightarrow> string \<Rightarrow> nat \<Rightarrow> cell \<Rightarrow> error + cell list" where
  "coluna_opcional df cols k n v =
     (if cols k \<noteq> None then coluna df cols k else Inr (replicate n v))"

text \<open>
  A row of the frame a reader returns, in the order of its columns: \<open>Tipo\<close>,
  \<open>Protocolo\<close>, \<open>Data\<close>, \<open>Valor\<close> for the bank, and the settlement date, \<open>Valor\<close>,
  \<open>Fornecedor\<close> for the ERP.
\<close>

type_synonym linha_banco = "cell \<times> cell \<times> timestamp option \<times> numero option"

type_synonym linha_conexa = "timestamp option \<times> numero option \<times> cell"

text \<open>
  \<open>ler_excel_banco\<close>, from the frame that \<open>read_excel\<close> returned. \<open>df_out\<close> starts
  with no row and gets its rows from the first series assigned to it. A scalar \<open>""\<close>
  assigned before that makes a column of no row, which the first series then fills with
  NaN; a scalar assigned after that is repeated on every row. So an absent \<open>Tipo\<close> is
  NaN (\<open>Vazio\<close>) on every row, and an absent \<open>Protocolo\<close> is \<open>""\<close> when \<open>Tipo\<close> was
  there and NaN when it was not.
\<close>

definition ler_excel_banco ::
  "(cell list \<Rightarrow> timestamp option list) \<Rightarrow> (string \<Rightarrow> int \<Rightarrow> numero option) \<Rightarrow>
   dataframe \<Rightarrow> error + linha_banco list" where
  "ler_excel_banco to_datetime rd df =
     (case cols_of (columns df) of Inl e \<Rightarrow> Inl e | Inr cols \<Rightarrow>
      (let falta = faltando obrig_banco cols
       in if falta \<noteq> [] then Inl (ValueError falta (columns df))
          else
           (case coluna_opcional df cols ''Tipo'' (nrows df) Vazio of
              Inl e \<Rightarrow> Inl e | Inr tipo \<Rightarrow>
           (case coluna_opcional df cols ''Protocolo'' (nrows df)
                   (if cols ''Tipo'' \<noteq> None then Texto [] else Vazio) of
              Inl e \<Rightarrow> Inl e | Inr protocolo \<Rightarrow>
           (case coluna df cols ''Data'' of Inl e \<Rightarrow> Inl e | Inr data \<Rightarrow>
           (case coluna df cols ''Valor'' of Inl e \<Rightarrow> Inl e | Inr valor \<Rightarrow>
              Inr (zip tipo (zip protocolo
                     (zip (to_datetime data) (map (to_numeric rd) valor))))))))))"

text \<open>
  \<open>ler_excel_conexa\<close>. Here \<open>Fornecedor\<close> is assigned last, when \<open>df_out\<close> has its
  rows, so an absent \<open>Fornecedor\<close> is \<open>""\<close> on every row.
\<close>

definition ler_excel_conexa ::
  "(cell list \<Rightarrow> timestamp option list) \<Rightarrow> (string \<Rightarrow> int \<Rightarrow> numero option) \<Rightarrow>
   dataframe \<Rightarrow> error + linha_conexa list" where
  "ler_excel_conexa to_datetime rd df =
     (case cols_of (columns df) of Inl e \<Rightarrow> Inl e | Inr cols \<Rightarrow>
      (let falta = faltando obrig_conexa cols
       in if falta \<noteq> [] then Inl (ValueError falta (columns df))
          else
           (case coluna df cols Quitacao of Inl e \<Rightarrow> Inl e | Inr quit \<Rightarrow>
           (case coluna df cols ''Valor'' of Inl e \<Rightarrow> Inl e | Inr valor \<Rightarrow>
           (case coluna_opcional df cols ''Fornecedor'' (nrows df) (Texto []) of
              Inl e \<Rightarrow> Inl e | Inr forn \<Rightarrow>
              Inr (zip (to_datetime quit) (zip (map (to_numeric rd) valor) forn)))))))"

subsection \<open>The matcher\<close>

text \<open>
  The rows the matcher iterates over, one per row of a reader's frame. Their \<open>Valor\<close> is
  NaN (\<open>None\<close>) or a finite double.
\<close>

record banco_row =
  b_tipo :: cell
  b_protocolo :: cell
  b_data :: "timestamp option"
  b_valor :: "rat option"

record erp_row =
  e_quitacao :: "timestamp option"
  e_valor :: "rat option"
  e_fornecedor :: cell

text \<open>
  The four values the code writes into \<open>Status\<close> (\<open>Conciliado\<close>, \<open>Nao conciliado\<close>,
  \<open>Entrada no Banco\<close>, \<open>Zero ou invalido\<close>, accents left out here) and the \<open>""\<close> every row starts with.
\<close>

datatype status = Conciliado | NaoConciliado | EntradaNoBanco | ZeroOuInvalido | SemStatus

record linha =
  data_banco :: "timestamp option"
  valor_banco :: "rat option"
  tipo_banco :: cell
  protocolo_banco :: cell
  data_erp_quitacao :: "timestamp option"
  valor_erp :: "rat option"
  fornecedor_erp :: cell
  status :: status

text \<open>The dictionary \<open>linha\<close> as each iteration creates it.\<close>

definition nova_linha :: "banco_row \<Rightarrow> linha" where
  "nova_linha b =
     \<lparr>data_banco = b_data b, valor_banco = b_valor b, tipo_banco = b_tipo b,
      protocolo_banco = b_protocolo b, data_erp_quitacao = None, valor_erp = None,
      fornecedor_erp = Texto [], status = SemStatus\<rparr>"

text \<open>
  \<open>erp[erp["Valor"] > 0]\<close> with the labels \<open>iterrows\<close> yields: the rows of a frame made
  by \<open>ler_excel_conexa\<close> are labelled by their positions. NaN is not greater than 0.
\<close>

definition positivo :: "rat option \<Rightarrow> bool" where
  "positivo v = (case v of None \<Rightarrow> False | Some x \<Rightarrow> 0 < x)"

definition erp_pos :: "erp_row list \<Rightarrow> (nat \<times> erp_row) list" where
  "erp_pos erp = filter (\<lambda>(idx, row). positivo (e_valor row)) (zip [0..<length erp] erp)"

text \<open>
  \<open>index_por_valor\<close>, a \<open>defaultdict(list)\<close>: a key that is absent reads as the empty
  list.
\<close>

type_synonym index = "rat \<rightharpoonup> nat list"

definition candidatos_de :: "index \<Rightarrow> rat \<Rightarrow> nat list" where
  "candidatos_de ix v = (case ix v of None \<Rightarrow> [] | Some l \<Rightarrow> l)"

text \<open>\<open>index_por_valor[row["Valor"]].append(idx)\<close>\<close>

definition indexar :: "index \<Rightarrow> nat \<times> erp_row \<Rightarrow> index" where
  "indexar ix p =
     (case e_valor (snd p) of
        None \<Rightarrow> ix
      | Some v \<Rightarrow> ix(v \<mapsto> candidatos_de ix v @ [fst p]))"

definition construir_index :: "erp_row list \<Rightarrow> index" where
  "construir_index erp = foldl indexar Map.empty (erp_pos erp)"

text \<open>\<open>erp.loc[idx]\<close>: the row labelled \<open>idx\<close>, or \<open>KeyError\<close>.\<close>

definition loc :: "erp_row list \<Rightarrow> nat \<Rightarrow> error + erp_row" where
  "loc erp idx = (if idx < length erp then Inr (erp ! idx) else Inl KeyError)"

text \<open>
  The state of the main loop: the index and the rows appended so far. The third field is
  not a variable of the code: it records, for every row appended, the \<open>idx_erp\<close> that
  the iteration popped, if it popped one.
\<close>

record estado =
  index_por_valor :: index
  linhas :: "linha list"
  fontes :: "nat option list"

definition acrescentar :: "estado \<Rightarrow> linha \<Rightarrow> nat option \<Rightarrow> estado" where
  "acrescentar s l f = s\<lparr>linhas := linhas s @ [l], fontes := fontes s @ [f]\<rparr>"

text \<open>One iteration of \<open>for _, b in banco.iterrows()\<close>.\<close>

definition passo :: "erp_row list \<Rightarrow> estado \<Rightarrow> banco_row \<Rightarrow> error + estado" where
  "passo erp s b =
     (let linha = nova_linha b in
      case b_valor b of
        None \<Rightarrow> Inr (acrescentar s (linha\<lparr>status := ZeroOuInvalido\<rparr>) None)
      | Some v \<Rightarrow>
          if 0 < v then Inr (acrescentar s (linha\<lparr>status := EntradaNoBanco\<rparr>) None)
          else
            (let alvo = \<bar>v\<bar> in
             case candidatos_de (index_por_valor s) alvo of
               [] \<Rightarrow> Inr (acrescentar s (linha\<lparr>status := NaoConciliado\<rparr>) None)
             | idx_erp # resto \<Rightarrow>
                 (case loc erp idx_erp of
                    Inl err \<Rightarrow> Inl err
                  | Inr e \<Rightarrow>
                      Inr (acrescentar
                             (s\<lparr>index_por_valor := (index_por_valor s)(alvo \<mapsto> resto)\<rparr>)
                             (linha\<lparr>data_erp_quitacao := e_quitacao e,
                                    valor_erp := e_valor e,
                                    fornecedor_erp := e_fornecedor e,
                                    status := Conciliado\<rparr>)
                             (Some idx_erp)))))"

fun laco :: "erp_row list \<Rightarrow> estado \<Rightarrow> banco_row list \<Rightarrow> error + estado" where
  "laco erp s [] = Inr s"
| "laco erp s (b # bs) =
     (case passo erp s b of Inl err \<Rightarrow> Inl err | Inr s' \<Rightarrow> laco erp s' bs)"

definition inicio :: "erp_row list \<Rightarrow> estado" where
  "inicio erp = \<lparr>index_por_valor = construir_index erp, linhas = [], fontes = []\<rparr>"

text \<open>\<open>conciliar_linha_a_linha(banco, erp)\<close>: the rows of the frame it returns.\<close>

definition conciliar_linha_a_linha :: "banco_row list \<Rightarrow> erp_row list \<Rightarrow> error + linha list" where
  "conciliar_linha_a_linha banco erp =
     (case laco erp (inicio erp) banco of Inl err \<Rightarrow> Inl err | Inr s \<Rightarrow> Inr (linhas s))"

text \<open>The same run, each row paired with the \<open>idx_erp\<close> it consumed.\<close>

definition conciliar_com_fontes ::
  "banco_row list \<Rightarrow> erp_row list \<Rightarrow> error + (linha \<times> nat option) list" where
  "conciliar_com_fontes banco erp =
     (case laco erp (inicio erp) banco of
        Inl err \<Rightarrow> Inl err
      | Inr s \<Rightarrow> Inr (zip (linhas s) (fontes s)))"

subsection \<open>What the loop computes, stated without the index\<close>

text \<open>
  The definitions below are not code of the script: they describe the run of the loop
  from the ERP rows and the sources consumed so far, and the proofs show that the loop
  computes exactly this.

  \<open>fila erp usados v\<close> is the queue that the index holds under the key \<open>v\<close> once the
  sources \<open>usados\<close> have been popped: the positions of the ERP rows of value \<open>v\<close>, for
  a positive \<open>v\<close>, in their order, without those consumed.
\<close>

definition fila :: "erp_row list \<Rightarrow> nat option list \<Rightarrow> rat \<Rightarrow> nat list" where
  "fila erp usados v =
     filter (\<lambda>i. e_valor (erp ! i) = Some v \<and> 0 < v \<and> Some i \<notin> set usados) [0..<length erp]"

text \<open>The row and the source that one iteration appends.\<close>

definition decidir :: "erp_row list \<Rightarrow> nat option list \<Rightarrow> banco_row \<Rightarrow> linha \<times> nat option" where
  "decidir erp usados b =
     (case b_valor b of
        None \<Rightarrow> ((nova_linha b)\<lparr>status := ZeroOuInvalido\<rparr>, None)
      | Some v \<Rightarrow>
          if 0 < v then ((nova_linha b)\<lparr>status := EntradaNoBanco\<rparr>, None)
          else (case fila erp usados \<bar>v\<bar> of
                  [] \<Rightarrow> ((nova_linha b)\<lparr>status := NaoConciliado\<rparr>, None)
                | k # _ \<Rightarrow>
                    ((nova_linha b)\<lparr>data_erp_quitacao := e_quitacao (erp ! k),
                                     valor_erp := e_valor (erp ! k),
                                     fornecedor_erp := e_fornecedor (erp ! k),
                                     status := Conciliado\<rparr>, Some k)))"

fun traco :: "erp_row list \<Rightarrow> nat option list \<Rightarrow> banco_row list \<Rightarrow> (linha \<times> nat option) list" where
  "traco erp usados [] = []"
| "traco erp usados (b # bs) =
     decidir erp usados b # traco erp (usados @ [snd (decidir erp usados b)]) bs"

text \<open>The invariant of the loop: every queue of the index is the one described.\<close>

definition inv_index :: "erp_row list \<Rightarrow> estado \<Rightarrow> bool" where
  "inv_index erp s \<longleftrightarrow> (\<forall>v. candidatos_de (index_por_valor s) v = fila erp (fontes s) v)"

subsection \<open>Records of the worked examples\<close>

definition ex_banco :: "rat option \<Rightarrow> banco_row" where
  "ex_banco v = \<lparr>b_tipo = Texto ''PIX'', b_protocolo = Texto ''7'', b_data = Some 0, b_valor = v\<rparr>"

definition ex_erp :: "rat option \<Rightarrow> string \<Rightarrow> erp_row" where
  "ex_erp v f = \<lparr>e_quitacao = Some 1, e_valor = v, e_fornecedor = Texto f\<rparr>"

text \<open>A \<open>to_datetime\<close> that reads no date at all: every cell becomes NaT.\<close>

definition sem_datas :: "cell list \<Rightarrow> timestamp option list" where
  "sem_datas cs = map (\<lambda>c. None) cs"

text \<open>
  A conversion of digits and exponent that rounds nothing and never fails: the exact
  value.
\<close>

definition exato :: "string \<Rightarrow> int \<Rightarrow> numero option" where
  "exato ds e =
     Some (Finito (if 0 \<le> e then of_nat (digits_value ds) * 10 ^ nat e
                   else of_nat (digits_value ds) / 10 ^ nat (- e)))"

section \<open>The loop and its description agree\<close>

lemma zip_upt_nth: "zip [0..<length xs] xs = map (\<lambda>i. (i, xs ! i)) [0..<length xs]"
proof -
  have "zip [0..<length xs] xs = zip [0..<length xs] (map ((!) xs) [0..<length xs])"
    by (simp only: map_nth)
  also have "\<dots> = map (\<lambda>i. (i, xs ! i)) [0..<length xs]"
    by (simp only: zip_map2 zip_same_conv_map) simp
  finally show ?thesis .
qed

lemma candidatos_indexar:
  "candidatos_de (indexar ix p) v =
     candidatos_de ix v @ (if e_valor (snd p) = Some v then [fst p] else [])"
  by (cases "e_valor (snd p)") (simp_all add: indexar_def candidatos_de_def)

lemma candidatos_foldl:
  "candidatos_de (foldl indexar ix ps) v =
     candidatos_de ix v @ map fst (filter (\<lambda>p. e_valor (snd p) = Some v) ps)"
proof (induction ps arbitrary: ix)
  case Nil
  show ?case by simp
next
  case (Cons p ps)
  show ?case by (simp add: Cons.IH candidatos_indexar)
qed

lemma candidatos_vazio: "candidatos_de Map.empty v = []"
  by (simp add: candidatos_de_def)

lemma candidatos_construir:
  "candidatos_de (construir_index erp) v = fila erp [] v"
proof -
  have "candidatos_de (construir_index erp) v =
        map fst (filter (\<lambda>p. e_valor (snd p) = Some v) (erp_pos erp))"
    by (simp add: construir_index_def candidatos_foldl candidatos_vazio)
  also have "\<dots> = filter (\<lambda>i. positivo (e_valor (erp ! i)) \<and> e_valor (erp ! i) = Some v)
                      [0..<length erp]"
    by (simp add: erp_pos_def zip_upt_nth filter_map o_def conj_commute)
  also have "\<dots> = fila erp [] v"
    unfolding fila_def by (rule filter_cong) (auto simp add: positivo_def)
  finally show ?thesis .
qed

lemma inv_inicio: "inv_index erp (inicio erp)"
  by (simp add: inv_index_def inicio_def candidatos_construir)

lemma filter_pop:
  assumes "distinct xs" "filter P xs = k # r"
  shows "filter (\<lambda>i. P i \<and> i \<noteq> k) xs = r"
proof -
  have "distinct (filter P xs)" using assms(1) by simp
  then have "k \<notin> set r" using assms(2) by simp
  have "filter (\<lambda>i. P i \<and> i \<noteq> k) xs = filter (\<lambda>i. i \<noteq> k) (filter P xs)"
    by (simp add: conj_commute)
  also have "\<dots> = r" using assms(2) \<open>k \<notin> set r\<close> by (auto simp add: filter_id_conv)
  finally show ?thesis .
qed

lemma fila_head:
  assumes "fila erp usados v = k # r"
  shows "k < length erp" "e_valor (erp ! k) = Some v" "0 < v" "Some k \<notin> set usados"
proof -
  have "k \<in> set (fila erp usados v)" using assms by simp
  then show "k < length erp" "e_valor (erp ! k) = Some v" "0 < v" "Some k \<notin> set usados"
    by (simp_all add: fila_def)
qed

lemma fila_pop_same:
  assumes "fila erp usados v = k # r"
  shows "fila erp (usados @ [Some k]) v = r"
proof -
  have "fila erp (usados @ [Some k]) v =
        filter (\<lambda>i. (e_valor (erp ! i) = Some v \<and> 0 < v \<and> Some i \<notin> set usados) \<and> i \<noteq> k) [0..<length erp]"
    by (simp add: fila_def conj_ac)
  also have "\<dots> = r"
    by (rule filter_pop) (use assms in \<open>simp_all add: fila_def\<close>)
  finally show ?thesis .
qed

lemma fila_pop_other:
  assumes "fila erp usados v = k # r" "w \<noteq> v"
  shows "fila erp (usados @ [Some k]) w = fila erp usados w"
proof -
  have "e_valor (erp ! k) = Some v" using fila_head(2)[OF assms(1)] .
  then show ?thesis using assms(2)
    by (auto simp add: fila_def intro!: filter_cong)
qed

lemma fila_None [simp]: "fila erp (usados @ [None]) v = fila erp usados v"
  by (simp add: fila_def)

lemma passo_decidir:
  assumes "inv_index erp s"
  shows "\<exists>s'. passo erp s b = Inr s' \<and> inv_index erp s' \<and>
           linhas s' = linhas s @ [fst (decidir erp (fontes s) b)] \<and>
           fontes s' = fontes s @ [snd (decidir erp (fontes s) b)]"
proof (cases "b_valor b")
  case None
  then show ?thesis using assms
    by (simp add: passo_def decidir_def acrescentar_def inv_index_def)
next
  case (Some v)
  show ?thesis
  proof (cases "0 < v")
    case True
    then show ?thesis using assms Some
      by (simp add: passo_def decidir_def acrescentar_def inv_index_def)
  next
    case False
    have q: "candidatos_de (index_por_valor s) \<bar>v\<bar> = fila erp (fontes s) \<bar>v\<bar>"
      using assms by (simp add: inv_index_def)
    show ?thesis
    proof (cases "fila erp (fontes s) \<bar>v\<bar>")
      case Nil
      then show ?thesis using assms Some False q
        by (simp add: passo_def decidir_def acrescentar_def inv_index_def)
    next
      case (Cons k r)
      have k: "k < length erp" using fila_head(1)[OF Cons] .
      have "inv_index erp (acrescentar (s\<lparr>index_por_valor := (index_por_valor s)(\<bar>v\<bar> \<mapsto> r)\<rparr>) l (Some k))" for l
        unfolding inv_index_def
      proof
        fix w
        show "candidatos_de (index_por_valor (acrescentar (s\<lparr>index_por_valor := (index_por_valor s)(\<bar>v\<bar> \<mapsto> r)\<rparr>) l (Some k))) w =
              fila erp (fontes (acrescentar (s\<lparr>index_por_valor := (index_por_valor s)(\<bar>v\<bar> \<mapsto> r)\<rparr>) l (Some k))) w"
        proof (cases "w = \<bar>v\<bar>")
          case True
          then show ?thesis using fila_pop_same[OF Cons]
            by (simp add: acrescentar_def candidatos_de_def)
        next
          case False
          then show ?thesis using fila_pop_other[OF Cons False] assms
            by (simp add: acrescentar_def candidatos_de_def inv_index_def)
        qed
      qed
      then show ?thesis using Some False q Cons k
        by (simp add: passo_def decidir_def loc_def) (simp add: acrescentar_def)
    qed
  qed
qed

lemma laco_traco:
  assumes "inv_index erp s"
  shows "\<exists>s'. laco erp s bs = Inr s' \<and> inv_index erp s' \<and>
           linhas s' = linhas s @ map fst (traco erp (fontes s) bs) \<and>
           fontes s' = fontes s @ map snd (traco erp (fontes s) bs)"
  using assms
proof (induction bs arbitrary: s)
  case Nil
  then show ?case by simp
next
  case (Cons b bs)
  from passo_decidir[OF Cons.prems, of b] obtain s1 where
    s1: "passo erp s b = Inr s1" "inv_index erp s1"
      "linhas s1 = linhas s @ [fst (decidir erp (fontes s) b)]"
      "fontes s1 = fontes s @ [snd (decidir erp (fontes s) b)]"
    by blast
  from Cons.IH[OF s1(2)] obtain s2 where
    s2: "laco erp s1 bs = Inr s2" "inv_index erp s2"
      "linhas s2 = linhas s1 @ map fst (traco erp (fontes s1) bs)"
      "fontes s2 = fontes s1 @ map snd (traco erp (fontes s1) bs)"
    by blast
  show ?case using s1 s2 by simp
qed

lemma conciliar_traco:
  "conciliar_com_fontes banco erp = Inr (traco erp [] banco)"
  "conciliar_linha_a_linha banco erp = Inr (map fst (traco erp [] banco))"
proof -
  from laco_traco[OF inv_inicio, of erp banco] obtain s where
    s: "laco erp (inicio erp) banco = Inr s"
      "linhas s = linhas (inicio erp) @ map fst (traco erp (fontes (inicio erp)) banco)"
      "fontes s = fontes (inicio erp) @ map snd (traco erp (fontes (inicio erp)) banco)"
    by blast
  show "conciliar_com_fontes banco erp = Inr (traco erp [] banco)"
    using s by (simp add: conciliar_com_fontes_def inicio_def zip_map_fst_snd)
  show "conciliar_linha_a_linha banco erp = Inr (map fst (traco erp [] banco))"
    using s by (simp add: conciliar_linha_a_linha_def inicio_def)
qed

lemma length_traco [simp]: "length (traco erp usados bs) = length bs"
  by (induction bs arbitrary: usados) simp_all

lemma traco_nth:
  "i < length bs \<Longrightarrow>
   traco erp usados bs ! i =
     decidir erp (usados @ map snd (take i (traco erp usados bs))) (bs ! i)"
proof (induction bs arbitrary: usados i)
  case Nil
  then show ?case by simp
next
  case (Cons b bs)
  show ?case
  proof (cases i)
    case 0
    then show ?thesis by simp
  next
    case (Suc j)
    then have "j < length bs" using Cons.prems by simp
    from Cons.IH[OF this] show ?thesis using Suc by simp
  qed
qed

text \<open>Row \<open>i\<close> of the result is what \<open>decidir\<close> gives for bank row \<open>i\<close> after the sources of
  the rows before it.\<close>

lemma conciliar_nth:
  assumes "i < length banco"
  shows "\<exists>rs. conciliar_com_fontes banco erp = Inr rs \<and>
              conciliar_linha_a_linha banco erp = Inr (map fst rs) \<and>
              length rs = length banco \<and>
              rs ! i = decidir erp (map snd (take i rs)) (banco ! i)"
  using traco_nth[OF assms, of erp "[]"] by (simp add: conciliar_traco)

lemma decidir_banco:
  "data_banco (fst (decidir erp u b)) = b_data b"
  "valor_banco (fst (decidir erp u b)) = b_valor b"
  "tipo_banco (fst (decidir erp u b)) = b_tipo b"
  "protocolo_banco (fst (decidir erp u b)) = b_protocolo b"
  by (simp_all add: decidir_def nova_linha_def split: option.split list.split)

lemma traco_banco:
  "map (\<lambda>p. data_banco (fst p)) (traco erp u bs) = map b_data bs"
  "map (\<lambda>p. valor_banco (fst p)) (traco erp u bs) = map b_valor bs"
  "map (\<lambda>p. tipo_banco (fst p)) (traco erp u bs) = map b_tipo bs"
  "map (\<lambda>p. protocolo_banco (fst p)) (traco erp u bs) = map b_protocolo bs"
  by (induction bs arbitrary: u) (simp_all add: decidir_banco)

lemma upt_filter_head:
  assumes "filter P [0..<n] = k # r" "j < k"
  shows "\<not> P j"
proof -
  from assms(1) obtain ys zs where
    yz: "[0..<n] = ys @ k # zs" "\<forall>y\<in>set ys. \<not> P y"
    by (auto simp add: filter_eq_Cons_iff)
  have "sorted_wrt (<) (ys @ k # zs)" using yz(1) sorted_wrt_upt[of 0 n] by simp
  then have zs: "\<forall>z\<in>set zs. k < z" by (simp add: sorted_wrt_append)
  have "k \<in> set [0..<n]" using yz(1) by simp
  then have "j \<in> set (ys @ k # zs)" using assms(2) yz(1) by (metis atLeastLessThan_iff less_trans set_upt zero_le)
  then have "j \<in> set ys" using zs assms(2) by auto
  then show ?thesis using yz(2) by blast
qed

lemma fila_least:
  assumes "fila erp u v = k # r" "j < k" "e_valor (erp ! j) = Some v"
  shows "Some j \<in> set u"
proof -
  have "0 < v" using fila_head(3)[OF assms(1)] .
  from upt_filter_head[OF assms(1)[unfolded fila_def] assms(2)] assms(3) this
  show ?thesis by simp
qed

lemma fila_vazia:
  assumes "fila erp u v = []" "j < length erp" "e_valor (erp ! j) = Some v" "0 < v"
  shows "Some j \<in> set u"
  using assms by (auto simp add: fila_def filter_empty_conv)

lemma decidir_fonte:
  assumes "snd (decidir erp u b) = Some k"
  shows "\<exists>v r. b_valor b = Some v \<and> \<not> 0 < v \<and> fila erp u \<bar>v\<bar> = k # r \<and>
           fst (decidir erp u b) =
             (nova_linha b)\<lparr>data_erp_quitacao := e_quitacao (erp ! k),
                              valor_erp := e_valor (erp ! k),
                              fornecedor_erp := e_fornecedor (erp ! k),
                              status := Conciliado\<rparr>"
  using assms by (auto simp add: decidir_def split: option.splits if_splits list.splits)

lemma decidir_status:
  "status (fst (decidir erp u b)) = Conciliado \<longleftrightarrow> snd (decidir erp u b) \<noteq> None"
  by (simp add: decidir_def nova_linha_def split: option.split list.split)

lemma decidir_sem_fonte:
  assumes "snd (decidir erp u b) = None"
  shows "data_erp_quitacao (fst (decidir erp u b)) = None"
    "valor_erp (fst (decidir erp u b)) = None"
    "fornecedor_erp (fst (decidir erp u b)) = Texto []"
  using assms by (simp_all add: decidir_def nova_linha_def split: option.splits if_splits list.splits)

lemmas avaliar =
  conciliar_com_fontes_def conciliar_linha_a_linha_def inicio_def construir_index_def
  erp_pos_def positivo_def indexar_def candidatos_de_def passo_def loc_def acrescentar_def
  nova_linha_def ex_banco_def ex_erp_def

text \<open>Three outflows of 100 against two ERP payments of 100.\<close>

lemma ex_fifo:
  "conciliar_com_fontes [ex_banco (Some (-100)), ex_banco (Some (-100)), ex_banco (Some (-100))]
     [ex_erp (Some 100) ''A'', ex_erp (Some 100) ''B''] =
   Inr [((nova_linha (ex_banco (Some (-100))))\<lparr>data_erp_quitacao := Some 1, valor_erp := Some 100,
           fornecedor_erp := Texto ''A'', status := Conciliado\<rparr>, Some 0),
        ((nova_linha (ex_banco (Some (-100))))\<lparr>data_erp_quitacao := Some 1, valor_erp := Some 100,
           fornecedor_erp := Texto ''B'', status := Conciliado\<rparr>, Some 1),
        ((nova_linha (ex_banco (Some (-100))))\<lparr>status := NaoConciliado\<rparr>, None)]"
  by (simp add: avaliar)

section \<open>The readers: when they fail and when they return\<close>

text \<open>A frame whose labels are all text: the dictionary of the stripped labels is built, a
  required name is missing exactly when no stripped label is equal to it, and every
  lookup that follows finds its column.\<close>

lemma cols_loop_textos:
  "cols_loop m (map Rotulo ts) = Inr (foldl (\<lambda>m t. m(strip t \<mapsto> Rotulo t)) m ts)"
  by (induction ts arbitrary: m) simp_all

lemma cols_loop_nao_texto:
  assumes "c \<in> set cs" "\<forall>s. c \<noteq> Rotulo s"
  shows "cols_loop m cs = Inl AttributeError"
  using assms
proof (induction cs arbitrary: m)
  case Nil
  then show ?case by simp
next
  case (Cons a cs)
  show ?case
  proof (cases a)
    case (Rotulo s)
    then have "c \<in> set cs" using Cons.prems by auto
    from Cons.IH[OF this Cons.prems(2)] Rotulo show ?thesis by simp
  qed simp_all
qed

lemma foldl_cols_None:
  "foldl (\<lambda>m t. m(strip t \<mapsto> Rotulo t)) m ts k = None \<longleftrightarrow> m k = None \<and> k \<notin> strip ` set ts"
  by (induction ts arbitrary: m) auto

lemma foldl_cols_Some:
  "foldl (\<lambda>m t. m(strip t \<mapsto> Rotulo t)) m ts k = Some c \<Longrightarrow>
     m k = Some c \<or> c \<in> Rotulo ` set ts"
proof (induction ts arbitrary: m)
  case Nil
  then show ?case by simp
next
  case (Cons a ts)
  from Cons.prems
  have "foldl (\<lambda>m t. m(strip t \<mapsto> Rotulo t)) (m(strip a \<mapsto> Rotulo a)) ts k = Some c"
    by (simp only: foldl_Cons)
  from Cons.IH[OF this] show ?case
    by (auto split: if_splits)
qed

lemma cols_of_textos:
  assumes "cs = map Rotulo ts"
  shows "\<exists>cols. cols_of cs = Inr cols \<and>
           (\<forall>k. cols k = None \<longleftrightarrow> k \<notin> strip ` set ts) \<and>
           (\<forall>k c. cols k = Some c \<longrightarrow> c \<in> set cs)"
proof -
  let ?cols = "foldl (\<lambda>m t. m(strip t \<mapsto> Rotulo t)) Map.empty ts"
  have "cols_of cs = Inr ?cols" using assms by (simp add: cols_of_def cols_loop_textos)
  moreover have "\<forall>k. ?cols k = None \<longleftrightarrow> k \<notin> strip ` set ts"
    by (simp add: foldl_cols_None)
  moreover have "\<forall>k c. ?cols k = Some c \<longrightarrow> c \<in> set cs"
    using foldl_cols_Some[of Map.empty ts] assms by auto
  ultimately show ?thesis by blast
qed

lemma coluna_ok:
  assumes "\<forall>k c. cols k = Some c \<longrightarrow> c \<in> set (columns df)" "cols k \<noteq> None"
  shows "\<exists>xs. coluna df cols k = Inr xs"
proof -
  from assms(2) obtain c where c: "cols k = Some c" by blast
  then have "c \<in> fst ` set df" using assms(1) by (simp add: columns_def)
  then have "map_of df c \<noteq> None" by (simp add: map_of_eq_None_iff)
  then show ?thesis using c by (auto simp add: coluna_def getitem_def)
qed

lemma coluna_opcional_ok:
  assumes "\<forall>k c. cols k = Some c \<longrightarrow> c \<in> set (columns df)"
  shows "\<exists>xs. coluna_opcional df cols k n v = Inr xs"
  using coluna_ok[OF assms, of k] by (simp add: coluna_opcional_def)

lemma ler_excel_banco_textos:
  assumes "columns df = map Rotulo ts"
  shows "if filter (\<lambda>c. c \<notin> strip ` set ts) obrig_banco \<noteq> []
         then ler_excel_banco td rd df =
                Inl (ValueError (filter (\<lambda>c. c \<notin> strip ` set ts) obrig_banco) (columns df))
         else \<exists>rows. ler_excel_banco td rd df = Inr rows"
proof -
  from cols_of_textos[OF assms] obtain cols where
    cols: "cols_of (columns df) = Inr cols"
      "\<forall>k. cols k = None \<longleftrightarrow> k \<notin> strip ` set ts"
      "\<forall>k c. cols k = Some c \<longrightarrow> c \<in> set (columns df)"
    by blast
  have f: "faltando obrig_banco cols = filter (\<lambda>c. c \<notin> strip ` set ts) obrig_banco"
    using cols(2) by (simp add: faltando_def)
  show ?thesis
  proof (cases "faltando obrig_banco cols = []")
    case False
    then show ?thesis using cols(1) f by (simp add: ler_excel_banco_def)
  next
    case True
    then have p: "cols ''Data'' \<noteq> None" "cols ''Valor'' \<noteq> None"
      by (simp_all add: faltando_def obrig_banco_def split: if_splits)
    from coluna_opcional_ok[OF cols(3), of "''Tipo''" "nrows df" Vazio] obtain tipo where
      t: "coluna_opcional df cols ''Tipo'' (nrows df) Vazio = Inr tipo" by blast
    from coluna_opcional_ok[OF cols(3), of "''Protocolo''" "nrows df"
        "if cols ''Tipo'' \<noteq> None then Texto [] else Vazio"] obtain prot where
      q: "coluna_opcional df cols ''Protocolo'' (nrows df)
            (if cols ''Tipo'' \<noteq> None then Texto [] else Vazio) = Inr prot" by blast
    from coluna_ok[OF cols(3) p(1)] obtain data where d: "coluna df cols ''Data'' = Inr data"
      by blast
    from coluna_ok[OF cols(3) p(2)] obtain valor where v: "coluna df cols ''Valor'' = Inr valor"
      by blast
    have "\<exists>rows. ler_excel_banco td rd df = Inr rows"
      using cols(1) True t q d v by (simp add: ler_excel_banco_def)
    then show ?thesis using True f by simp
  qed
qed

lemma ler_excel_conexa_textos:
  assumes "columns df = map Rotulo ts"
  shows "if filter (\<lambda>c. c \<notin> strip ` set ts) obrig_conexa \<noteq> []
         then ler_excel_conexa td rd df =
                Inl (ValueError (filter (\<lambda>c. c \<notin> strip ` set ts) obrig_conexa) (columns df))
         else \<exists>rows. ler_excel_conexa td rd df = Inr rows"
proof -
  from cols_of_textos[OF assms] obtain cols where
    cols: "cols_of (columns df) = Inr cols"
      "\<forall>k. cols k = None \<longleftrightarrow> k \<notin> strip ` set ts"
      "\<forall>k c. cols k = Some c \<longrightarrow> c \<in> set (columns df)"
    by blast
  have f: "faltando obrig_conexa cols = filter (\<lambda>c. c \<notin> strip ` set ts) obrig_conexa"
    using cols(2) by (simp add: faltando_def)
  show ?thesis
  proof (cases "faltando obrig_conexa cols = []")
    case False
    then show ?thesis using cols(1) f by (simp add: ler_excel_conexa_def)
  next
    case True
    then have p: "cols Quitacao \<noteq> None" "cols ''Valor'' \<noteq> None"
      by (simp_all add: faltando_def obrig_conexa_def split: if_splits)
    from coluna_ok[OF cols(3) p(1)] obtain quit where d: "coluna df cols Quitacao = Inr quit"
      by blast
    from coluna_ok[OF cols(3) p(2)] obtain valor where v: "coluna df cols ''Valor'' = Inr valor"
      by blast
    from coluna_opcional_ok[OF cols(3), of "''Fornecedor''" "nrows df" "Texto []"] obtain forn where
      t: "coluna_opcional df cols ''Fornecedor'' (nrows df) (Texto []) = Inr forn" by blast
    have "\<exists>rows. ler_excel_conexa td rd df = Inr rows"
      using cols(1) True d v t by (simp add: ler_excel_conexa_def)
    then show ?thesis using True f by simp
  qed
qed

lemma ler_excel_nao_texto:
  assumes "c \<in> set (columns df)" "\<forall>s. c \<noteq> Rotulo s"
  shows "ler_excel_banco td rd df = Inl AttributeError"
    "ler_excel_conexa td rd df = Inl AttributeError"
  using cols_loop_nao_texto[OF assms, of Map.empty]
  by (simp_all add: ler_excel_banco_def ler_excel_conexa_def cols_of_def)

lemma strip_padded:
  assumes "list_all py_isspace pre" "list_all py_isspace suf"
    "r \<noteq> []" "\<not> py_isspace (hd r)" "\<not> py_isspace (last r)"
  shows "strip (pre @ r @ suf) = r"
proof -
  have 1: "dropWhile py_isspace (pre @ r @ suf) = dropWhile py_isspace (r @ suf)"
    using assms(1) by (simp add: dropWhile_append2 list_all_iff)
  have 2: "dropWhile py_isspace (r @ suf) = r @ suf"
    using assms(3,4) by (cases r) simp_all
  have 3: "dropWhile py_isspace (rev suf @ rev r) = dropWhile py_isspace (rev r)"
    using assms(2) by (intro dropWhile_append2) (simp add: list_all_iff)
  have 4: "dropWhile py_isspace (rev r) = rev r"
    using assms(3,5) by (cases "rev r") (simp_all add: last_rev[symmetric] hd_rev)
  show ?thesis by (simp add: strip_def 1 2 3 4)
qed

lemma presente_strip:
  assumes "list_all py_isspace pre" "list_all py_isspace suf" "pre @ r @ suf \<in> set ts"
    "r \<in> set [''Data'', ''Valor'', Quitacao]"
  shows "r \<in> strip ` set ts"
proof -
  have "r \<noteq> [] \<and> \<not> py_isspace (hd r) \<and> \<not> py_isspace (last r)"
    using assms(4) by (auto simp add: Quitacao_def py_isspace_def)
  then have "strip (pre @ r @ suf) = r" using strip_padded[OF assms(1,2)] by blast
  then show ?thesis using assms(3) by force
qed

text \<open>The numeric conversion on digits, a point and digits.\<close>

lemma nao_digito:
  "\<not> isdigit_ascii CHR '',''" "\<not> isdigit_ascii CHR ''.''" "\<not> isdigit_ascii CHR ''-''"
  "\<not> isdigit_ascii CHR ''+''" "\<not> isdigit_ascii CHR 0x20" "\<not> isdigit_ascii CHR 0x09"
  "\<not> isdigit_ascii CHR 0x0A" "\<not> isdigit_ascii CHR 0x0B" "\<not> isdigit_ascii CHR 0x0C"
  "\<not> isdigit_ascii CHR 0x0D"
  by (simp_all add: isdigit_ascii_def)

lemma digito_nao_espaco: "isdigit_ascii c \<Longrightarrow> \<not> isspace_ascii c"
  using nao_digito(5-10) by (auto simp add: isspace_ascii_def)

lemma digito_nao_sinal: "isdigit_ascii c \<Longrightarrow> c \<noteq> CHR ''-'' \<and> c \<noteq> CHR ''+'' \<and> c \<noteq> CHR '',''"
  using nao_digito(1,3,4) by blast

lemma digitos_nao_virgula:
  assumes "list_all isdigit_ascii ds"
  shows "replace_comma ds = ds"
proof -
  have "c \<noteq> CHR '',''" if "c \<in> set ds" for c
    using that assms digito_nao_sinal[of c] by (simp add: list_all_iff)
  then show ?thesis unfolding replace_comma_def by (intro map_idI) simp
qed

lemma replace_comma_append:
  "replace_comma (xs @ ys) = replace_comma xs @ replace_comma ys"
  by (simp add: replace_comma_def)

lemma replace_comma_virgula: "replace_comma '','' = ''.''" "replace_comma ''.'' = ''.''"
  by (simp_all add: replace_comma_def)

lemma take_digitos:
  assumes "list_all isdigit_ascii ds" "\<not> isdigit_ascii c"
  shows "takeWhile isdigit_ascii (ds @ c # r) = ds" "dropWhile isdigit_ascii (ds @ c # r) = c # r"
    "takeWhile isdigit_ascii ds = ds" "dropWhile isdigit_ascii ds = []"
  using assms by (simp_all add: list_all_iff takeWhile_tail dropWhile_append3)

lemma sem_espaco_nem_sinal:
  assumes "list_all isdigit_ascii ds"
  shows "take_sign (dropWhile isspace_ascii (ds @ CHR ''.'' # r)) = (False, ds @ CHR ''.'' # r)"
proof (cases ds)
  case Nil
  have "\<not> isspace_ascii CHR ''.''" by (simp add: isspace_ascii_def)
  then show ?thesis using Nil by simp
next
  case (Cons d ds')
  then have "isdigit_ascii d" using assms by simp
  then have "\<not> isspace_ascii d" "d \<noteq> CHR ''-''" "d \<noteq> CHR ''+''"
    using digito_nao_espaco[of d] digito_nao_sinal[of d] by blast+
  then show ?thesis using Cons by simp
qed

lemma to_double_decimal:
  assumes "list_all isdigit_ascii ip" "list_all isdigit_ascii fp" "ip @ fp \<noteq> []"
  shows "to_double rd (ip @ ''.'' @ fp) = rd (ip @ fp) (- int (length fp))"
proof -
  have s: "take_sign (dropWhile isspace_ascii (ip @ CHR ''.'' # fp)) = (False, ip @ CHR ''.'' # fp)"
    by (rule sem_espaco_nem_sinal[OF assms(1)])
  have i: "takeWhile isdigit_ascii (ip @ CHR ''.'' # fp) = ip"
    "dropWhile isdigit_ascii (ip @ CHR ''.'' # fp) = CHR ''.'' # fp"
    using take_digitos(1,2)[OF assms(1) nao_digito(2)] by simp_all
  note f = take_digitos(3,4)[OF assms(2) nao_digito(2)]
  show ?thesis
    using assms(3)
    by (cases "rd (ip @ fp) (- int (length fp))") (simp_all add: to_double_def s i f)
qed

lemma to_double_dois_pontos:
  assumes "list_all isdigit_ascii a" "list_all isdigit_ascii b"
  shows "to_double rd (a @ ''.'' @ b @ ''.'' @ c) = None"
proof -
  have s: "take_sign (dropWhile isspace_ascii (a @ CHR ''.'' # b @ CHR ''.'' # c)) =
           (False, a @ CHR ''.'' # b @ CHR ''.'' # c)"
    by (rule sem_espaco_nem_sinal[OF assms(1)])
  have i: "takeWhile isdigit_ascii (a @ CHR ''.'' # b @ CHR ''.'' # c) = a"
    "dropWhile isdigit_ascii (a @ CHR ''.'' # b @ CHR ''.'' # c) = CHR ''.'' # b @ CHR ''.'' # c"
    using take_digitos(1,2)[OF assms(1) nao_digito(2)] by simp_all
  note f = take_digitos(1,2)[OF assms(2) nao_digito(2)]
  have w: "\<not> isspace_ascii CHR ''.''" by (simp add: isspace_ascii_def)
  show ?thesis by (simp add: to_double_def s i f w)
qed

lemma infinity_spelling_ponto:
  assumes "CHR ''.'' \<in> set s"
  shows "infinity_spelling s = None"
proof -
  have "lower_ascii CHR ''.'' = CHR ''.''" by (simp add: lower_ascii_def)
  then have "CHR ''.'' \<in> lower_ascii ` set s" using assms by force
  then have p: "CHR ''.'' \<in> set (map lower_ascii s)" by simp
  have "map lower_ascii s \<noteq> t" if "CHR ''.'' \<notin> set t" for t
    using p that by auto
  then have "map lower_ascii s \<notin> set [''inf'', ''+inf'', ''infinity'', ''+infinity'', ''-inf'', ''-infinity'']"
    by simp
  then show ?thesis by (simp add: infinity_spelling_def Let_def)
qed

lemmas avaliar_leitura =
  ler_excel_banco_def ler_excel_conexa_def cols_of_def columns_def faltando_def
  obrig_banco_def obrig_conexa_def Quitacao_def strip_def py_isspace_def coluna_def
  getitem_def coluna_opcional_def sem_datas_def nrows_def

lemmas avaliar_numero =
  floatify_def to_double_def infinity_spelling_def lower_ascii_def replace_comma_def
  isspace_ascii_def isdigit_ascii_def digits_value_def digit_value_def exato_def

section \<open>Claims about the matcher\<close>

text \<open>
  C1. For all bank and ERP rows, \<open>conciliar_linha_a_linha\<close> returns (it raises nothing)
  exactly one row per bank row, in the order of the bank rows: the four bank fields of
  row \<open>i\<close> are those of bank row \<open>i\<close>.
\<close>

theorem C1_one_row_per_bank_row:
  "\<exists>rows. conciliar_linha_a_linha banco erp = Inr rows \<and>
          length rows = length banco \<and>
          map data_banco rows = map b_data banco \<and>
          map valor_banco rows = map b_valor banco \<and>
          map tipo_banco rows = map b_tipo banco \<and>
          map protocolo_banco rows = map b_protocolo banco"
  by (simp add: conciliar_traco o_def traco_banco)

theorem C1_witness:
  "\<exists>rows. conciliar_linha_a_linha [ex_banco (Some (-100)), ex_banco (Some 5)]
             [ex_erp (Some 100) ''A''] = Inr rows \<and>
          length rows = 2 \<and>
          map valor_banco rows = [Some (-100), Some 5]"
  using C1_one_row_per_bank_row
    [of "[ex_banco (Some (-100)), ex_banco (Some 5)]" "[ex_erp (Some 100) ''A'']"]
  by (auto simp add: ex_banco_def)

text \<open>
  C2. No ERP row is consumed twice: in the run that \<open>conciliar_linha_a_linha\<close> makes,
  two rows whose iterations popped the same \<open>idx_erp\<close> are the same row.
\<close>

theorem C2_no_double_match:
  "\<exists>rs. conciliar_com_fontes banco erp = Inr rs \<and>
         conciliar_linha_a_linha banco erp = Inr (map fst rs) \<and>
         (\<forall>i j k. i < length rs \<and> j < length rs \<and>
                   snd (rs ! i) = Some k \<and> snd (rs ! j) = Some k \<longrightarrow> i = j)"
proof -
  let ?rs = "traco erp [] banco"
  have "i = j" if h: "i < length ?rs" "j < length ?rs" "snd (?rs ! i) = Some k" "snd (?rs ! j) = Some k"
    for i j k
  proof -
    have later: False
      if a: "a < b" "b < length ?rs" "snd (?rs ! a) = Some k" "snd (?rs ! b) = Some k" for a b
    proof -
      have "b < length banco" using a(2) by simp
      from traco_nth[OF this, of erp "[]"] a(4)
      have "snd (decidir erp (map snd (take b ?rs)) (banco ! b)) = Some k" by simp
      from decidir_fonte[OF this] obtain v r where
        "fila erp (map snd (take b ?rs)) \<bar>v\<bar> = k # r" by blast
      from fila_head(4)[OF this] have "Some k \<notin> set (map snd (take b ?rs))" .
      moreover have "?rs ! a \<in> set (take b ?rs)"
        using a(1,2) by (metis in_set_conv_nth length_take min.absorb4 nth_take)
      ultimately show False using a(3) by force
    qed
    show ?thesis using later[of i j] later[of j i] h by (metis nat_neq_iff)
  qed
  then show ?thesis by (auto simp add: conciliar_traco)
qed

theorem C2_witness:
  "\<exists>rs. conciliar_com_fontes
            [ex_banco (Some (-100)), ex_banco (Some (-100)), ex_banco (Some (-100))]
            [ex_erp (Some 100) ''A'', ex_erp (Some 100) ''B''] = Inr rs \<and>
        snd (rs ! 0) = Some 0 \<and> snd (rs ! 1) = Some 1 \<and> snd (rs ! 2) = None"
  using C2_no_double_match
    [of "[ex_banco (Some (-100)), ex_banco (Some (-100)), ex_banco (Some (-100))]"
        "[ex_erp (Some 100) ''A'', ex_erp (Some 100) ''B'']"]
  by (simp add: ex_fifo)

text \<open>
  C3. In every row whose status is \<open>Conciliado\<close>, the ERP value written into the row is
  exactly the absolute value of the row's bank value, and the three ERP fields of the row
  are those of the ERP row that the iteration consumed.
\<close>

theorem C3_conciliado_exact_amount:
  assumes "i < length banco" "conciliar_linha_a_linha banco erp = Inr rows"
    "status (rows ! i) = Conciliado"
  shows "\<exists>v k rs. b_valor (banco ! i) = Some v \<and> valor_banco (rows ! i) = Some v \<and>
           valor_erp (rows ! i) = Some \<bar>v\<bar> \<and>
           conciliar_com_fontes banco erp = Inr rs \<and> snd (rs ! i) = Some k \<and>
           k < length erp \<and>
           data_erp_quitacao (rows ! i) = e_quitacao (erp ! k) \<and>
           valor_erp (rows ! i) = e_valor (erp ! k) \<and>
           fornecedor_erp (rows ! i) = e_fornecedor (erp ! k)"
proof -
  from conciliar_nth[OF assms(1), of erp] obtain rs where
    rs: "conciliar_com_fontes banco erp = Inr rs"
      "conciliar_linha_a_linha banco erp = Inr (map fst rs)"
      "length rs = length banco"
      "rs ! i = decidir erp (map snd (take i rs)) (banco ! i)"
    by blast
  let ?u = "map snd (take i rs)"
  have row: "rows ! i = fst (decidir erp ?u (banco ! i))"
    using rs assms(1,2) by simp
  then have "snd (decidir erp ?u (banco ! i)) \<noteq> None"
    using assms(3) decidir_status[of erp ?u "banco ! i"] by simp
  then obtain k where k: "snd (decidir erp ?u (banco ! i)) = Some k" by blast
  from decidir_fonte[OF k] obtain v r where
    d: "b_valor (banco ! i) = Some v" "fila erp ?u \<bar>v\<bar> = k # r"
      "fst (decidir erp ?u (banco ! i)) =
         (nova_linha (banco ! i))\<lparr>data_erp_quitacao := e_quitacao (erp ! k),
            valor_erp := e_valor (erp ! k), fornecedor_erp := e_fornecedor (erp ! k),
            status := Conciliado\<rparr>"
    by blast
  note h = fila_head[OF d(2)]
  show ?thesis
    using rs(1,4) row k d(1,3) h(1,2) by (simp add: nova_linha_def)
qed

theorem C3_witness:
  "status (((nova_linha (ex_banco (Some (-100))))\<lparr>data_erp_quitacao := Some 1,
              valor_erp := Some 100, fornecedor_erp := Texto ''A'', status := Conciliado\<rparr>)) =
     Conciliado \<and>
   conciliar_linha_a_linha [ex_banco (Some (-100)), ex_banco (Some (-7))]
       [ex_erp (Some 100) ''A''] =
     Inr [(nova_linha (ex_banco (Some (-100))))\<lparr>data_erp_quitacao := Some 1,
              valor_erp := Some 100, fornecedor_erp := Texto ''A'', status := Conciliado\<rparr>,
          (nova_linha (ex_banco (Some (-7))))\<lparr>status := NaoConciliado\<rparr>] \<and>
   (\<exists>rs. conciliar_com_fontes [ex_banco (Some (-100)), ex_banco (Some (-7))]
            [ex_erp (Some 100) ''A''] = Inr rs \<and> snd (rs ! 0) = Some 0)"
  using C3_conciliado_exact_amount
    [of 0 "[ex_banco (Some (-100)), ex_banco (Some (-7))]" "[ex_erp (Some 100) ''A'']"
        "[(nova_linha (ex_banco (Some (-100))))\<lparr>data_erp_quitacao := Some 1,
              valor_erp := Some 100, fornecedor_erp := Texto ''A'', status := Conciliado\<rparr>,
          (nova_linha (ex_banco (Some (-7))))\<lparr>status := NaoConciliado\<rparr>]"]
  by (simp add: avaliar)

text \<open>
  C4. ERP rows of the same positive value are consumed in their original order. For a
  bank row \<open>i\<close> that reaches the matching branch (its value \<open>v\<close> is a number, not
  positive): if the iteration consumes ERP row \<open>k\<close>, then \<open>k\<close> has the value \<open>\<bar>v\<bar>\<close>,
  no earlier bank row consumed it, and every ERP row before \<open>k\<close> with that value was
  consumed by an earlier bank row; if it consumes none, every positive ERP row with that
  value was consumed by an earlier bank row. With ERP values 100, 100 and bank values
  -100, -100, row 0 consumes ERP row 0 and row 1 consumes ERP row 1.
\<close>

theorem C4_fifo:
  assumes "i < length banco" "b_valor (banco ! i) = Some v" "\<not> 0 < v"
  shows "\<exists>rs. conciliar_com_fontes banco erp = Inr rs \<and>
           conciliar_linha_a_linha banco erp = Inr (map fst rs) \<and>
           (case snd (rs ! i) of
              Some k \<Rightarrow>
                k < length erp \<and> e_valor (erp ! k) = Some \<bar>v\<bar> \<and>
                Some k \<notin> set (map snd (take i rs)) \<and>
                (\<forall>j<k. e_valor (erp ! j) = Some \<bar>v\<bar> \<longrightarrow> Some j \<in> set (map snd (take i rs)))
            | None \<Rightarrow>
                (\<forall>j<length erp. e_valor (erp ! j) = Some \<bar>v\<bar> \<and> 0 < \<bar>v\<bar> \<longrightarrow>
                   Some j \<in> set (map snd (take i rs))))"
proof -
  from conciliar_nth[OF assms(1), of erp] obtain rs where
    rs: "conciliar_com_fontes banco erp = Inr rs"
      "conciliar_linha_a_linha banco erp = Inr (map fst rs)"
      "rs ! i = decidir erp (map snd (take i rs)) (banco ! i)"
    by blast
  let ?u = "map snd (take i rs)"
  have "case snd (decidir erp ?u (banco ! i)) of
          Some k \<Rightarrow>
            k < length erp \<and> e_valor (erp ! k) = Some \<bar>v\<bar> \<and> Some k \<notin> set ?u \<and>
            (\<forall>j<k. e_valor (erp ! j) = Some \<bar>v\<bar> \<longrightarrow> Some j \<in> set ?u)
        | None \<Rightarrow>
            (\<forall>j<length erp. e_valor (erp ! j) = Some \<bar>v\<bar> \<and> 0 < \<bar>v\<bar> \<longrightarrow> Some j \<in> set ?u)"
  proof (cases "fila erp ?u \<bar>v\<bar>")
    case Nil
    then show ?thesis using assms(2,3) fila_vazia[OF Nil]
      by (simp add: decidir_def)
  next
    case (Cons k r)
    then show ?thesis using assms(2,3) fila_head[OF Cons] fila_least[OF Cons]
      by (simp add: decidir_def)
  qed
  then show ?thesis using rs by simp
qed

theorem C4_witness:
  "\<exists>rs. conciliar_com_fontes [ex_banco (Some (-100)), ex_banco (Some (-100))]
            [ex_erp (Some 100) ''A'', ex_erp (Some 100) ''B''] = Inr rs \<and>
        snd (rs ! 0) = Some 0 \<and> snd (rs ! 1) = Some 1 \<and>
        fornecedor_erp (fst (rs ! 0)) = Texto ''A'' \<and> fornecedor_erp (fst (rs ! 1)) = Texto ''B''"
  using C4_fifo[of 1 "[ex_banco (Some (-100)), ex_banco (Some (-100))]" "-100"
      "[ex_erp (Some 100) ''A'', ex_erp (Some 100) ''B'']"]
  by (simp add: avaliar)

text \<open>
  C5. A bank row whose value is a number greater than 0 gets the status
  \<open>EntradaNoBanco\<close>; its iteration pops nothing, leaves the index as it was, and leaves
  the three ERP fields of the row at their defaults.
\<close>

theorem C5_entrada:
  assumes "i < length banco" "b_valor (banco ! i) = Some v" "0 < v"
  shows "\<exists>rs. conciliar_com_fontes banco erp = Inr rs \<and>
           conciliar_linha_a_linha banco erp = Inr (map fst rs) \<and>
           status (fst (rs ! i)) = EntradaNoBanco \<and>
           snd (rs ! i) = None \<and>
           data_erp_quitacao (fst (rs ! i)) = None \<and>
           valor_erp (fst (rs ! i)) = None \<and>
           fornecedor_erp (fst (rs ! i)) = Texto [] \<and>
           (\<forall>s. \<exists>s'. passo erp s (banco ! i) = Inr s' \<and>
                      index_por_valor s' = index_por_valor s)"
proof -
  from conciliar_nth[OF assms(1), of erp] obtain rs where
    rs: "conciliar_com_fontes banco erp = Inr rs"
      "conciliar_linha_a_linha banco erp = Inr (map fst rs)"
      "rs ! i = decidir erp (map snd (take i rs)) (banco ! i)"
    by blast
  have "decidir erp (map snd (take i rs)) (banco ! i) =
          ((nova_linha (banco ! i))\<lparr>status := EntradaNoBanco\<rparr>, None)"
    using assms(2,3) by (simp add: decidir_def)
  moreover have "\<exists>s'. passo erp s (banco ! i) = Inr s' \<and>
                      index_por_valor s' = index_por_valor s" for s
    using assms(2,3) by (simp add: passo_def acrescentar_def)
  ultimately show ?thesis using rs by (simp add: nova_linha_def)
qed

theorem C5_witness:
  "\<exists>rs. conciliar_com_fontes [ex_banco (Some 100)] [ex_erp (Some 100) ''A''] = Inr rs \<and>
        status (fst (rs ! 0)) = EntradaNoBanco \<and> snd (rs ! 0) = None \<and>
        valor_erp (fst (rs ! 0)) = None"
  using C5_entrada[of 0 "[ex_banco (Some 100)]" 100 "[ex_erp (Some 100) ''A'']"]
  by (simp add: avaliar)

text \<open>
  C6. A bank row whose value is the missing value (what an amount that does not parse
  becomes) gets the status \<open>ZeroOuInvalido\<close>; its iteration pops nothing, leaves the
  index as it was and the three ERP fields at their defaults, and the run returns its
  rows: nothing is raised.
\<close>

theorem C6_invalido:
  assumes "i < length banco" "b_valor (banco ! i) = None"
  shows "\<exists>rs. conciliar_com_fontes banco erp = Inr rs \<and>
           conciliar_linha_a_linha banco erp = Inr (map fst rs) \<and>
           status (fst (rs ! i)) = ZeroOuInvalido \<and>
           snd (rs ! i) = None \<and>
           data_erp_quitacao (fst (rs ! i)) = None \<and>
           valor_erp (fst (rs ! i)) = None \<and>
           fornecedor_erp (fst (rs ! i)) = Texto [] \<and>
           (\<forall>s. \<exists>s'. passo erp s (banco ! i) = Inr s' \<and>
                      index_por_valor s' = index_por_valor s)"
proof -
  from conciliar_nth[OF assms(1), of erp] obtain rs where
    rs: "conciliar_com_fontes banco erp = Inr rs"
      "conciliar_linha_a_linha banco erp = Inr (map fst rs)"
      "rs ! i = decidir erp (map snd (take i rs)) (banco ! i)"
    by blast
  have "decidir erp (map snd (take i rs)) (banco ! i) =
          ((nova_linha (banco ! i))\<lparr>status := ZeroOuInvalido\<rparr>, None)"
    using assms(2) by (simp add: decidir_def)
  moreover have "\<exists>s'. passo erp s (banco ! i) = Inr s' \<and>
                      index_por_valor s' = index_por_valor s" for s
    using assms(2) by (simp add: passo_def acrescentar_def)
  ultimately show ?thesis using rs by (simp add: nova_linha_def)
qed

theorem C6_witness:
  "to_numeric exato (Texto ''abc'') = None \<and>
   (\<exists>rs. conciliar_com_fontes [ex_banco None] [ex_erp (Some 100) ''A''] = Inr rs \<and>
        status (fst (rs ! 0)) = ZeroOuInvalido \<and> snd (rs ! 0) = None \<and>
        valor_erp (fst (rs ! 0)) = None)"
  using C6_invalido[of 0 "[ex_banco None]" "[ex_erp (Some 100) ''A'']"]
  by (simp add: avaliar avaliar_numero)

text \<open>
  C10. A bank row whose value is exactly 0 gets the status \<open>NaoConciliado\<close>, pops
  nothing and has the three ERP fields at their defaults, whatever the ERP rows are:
  after any number of iterations the index holds no candidate under the key 0, since
  only ERP rows of a value greater than 0 are indexed.
\<close>

theorem C10_zero:
  assumes "i < length banco" "b_valor (banco ! i) = Some 0"
  shows "\<exists>rs. conciliar_com_fontes banco erp = Inr rs \<and>
           conciliar_linha_a_linha banco erp = Inr (map fst rs) \<and>
           status (fst (rs ! i)) = NaoConciliado \<and>
           snd (rs ! i) = None \<and>
           data_erp_quitacao (fst (rs ! i)) = None \<and>
           valor_erp (fst (rs ! i)) = None \<and>
           fornecedor_erp (fst (rs ! i)) = Texto [] \<and>
           (\<forall>n. \<exists>s. laco erp (inicio erp) (take n banco) = Inr s \<and>
                      candidatos_de (index_por_valor s) 0 = [])"
proof -
  from conciliar_nth[OF assms(1), of erp] obtain rs where
    rs: "conciliar_com_fontes banco erp = Inr rs"
      "conciliar_linha_a_linha banco erp = Inr (map fst rs)"
      "rs ! i = decidir erp (map snd (take i rs)) (banco ! i)"
    by blast
  have z: "fila erp u 0 = []" for u by (simp add: fila_def)
  have "decidir erp (map snd (take i rs)) (banco ! i) =
          ((nova_linha (banco ! i))\<lparr>status := NaoConciliado\<rparr>, None)"
    using assms(2) by (simp add: decidir_def z)
  moreover have "\<exists>s. laco erp (inicio erp) (take n banco) = Inr s \<and>
                     candidatos_de (index_por_valor s) 0 = []" for n
  proof -
    from laco_traco[OF inv_inicio, of erp "take n banco"] obtain s where
      s: "laco erp (inicio erp) (take n banco) = Inr s" "inv_index erp s"
      by blast
    from s(2) have "candidatos_de (index_por_valor s) 0 = []"
      by (simp add: inv_index_def z)
    with s(1) show ?thesis by blast
  qed
  ultimately show ?thesis using rs by (simp add: nova_linha_def)
qed

theorem C10_witness:
  "\<exists>rs. conciliar_com_fontes [ex_banco (Some 0)] [ex_erp (Some 0) ''A'', ex_erp (Some 100) ''B''] = Inr rs \<and>
        status (fst (rs ! 0)) = NaoConciliado \<and> snd (rs ! 0) = None \<and>
        valor_erp (fst (rs ! 0)) = None"
  using C10_zero[of 0 "[ex_banco (Some 0)]" "[ex_erp (Some 0) ''A'', ex_erp (Some 100) ''B'']"]
  by (simp add: avaliar)

section \<open>Claims about the readers\<close>

text \<open>
  C7, as claimed, fails: a frame that lacks a required column and has a label that is
  not text (a header cell holding the number 2024) does not fail with the error of the
  missing columns. \<open>c.strip()\<close> raises \<open>AttributeError\<close> on that label before the
  required columns are checked.
\<close>

theorem C7_counterexample:
  "ler_excel_banco sem_datas exato
     [(Rotulo ''Data'', [Texto ''01/02/2024'']), (RotuloNumero 2024, [Numero 5])] =
     Inl AttributeError \<and>
   ler_excel_conexa sem_datas exato
     [(Rotulo ''Valor'', [Numero 5]), (RotuloNumero 2024, [Numero 5])] =
     Inl AttributeError"
  by (simp add: avaliar_leitura)

text \<open>
  C7, amended. For a frame whose labels are all text, a reader fails exactly when a
  required column is missing, that is when no label of the frame is the required name
  once stripped. The \<open>ValueError\<close> then carries every missing required name and all the
  labels of the frame as they were read; it depends on the labels only, not on any cell.
  Otherwise the reader returns its rows: for such a frame the missing column is the only
  failure.
\<close>

theorem C7_missing_columns:
  assumes "columns df = map Rotulo ts"
  shows
  "(let falta = filter (\<lambda>c. c \<notin> strip ` set ts) [''Data'', ''Valor'']
    in if falta \<noteq> [] then ler_excel_banco td rd df = Inl (ValueError falta (columns df))
       else \<exists>rows. ler_excel_banco td rd df = Inr rows) \<and>
   (let falta = filter (\<lambda>c. c \<notin> strip ` set ts) [Quitacao, ''Valor'']
    in if falta \<noteq> [] then ler_excel_conexa td rd df = Inl (ValueError falta (columns df))
       else \<exists>rows. ler_excel_conexa td rd df = Inr rows)"
  using ler_excel_banco_textos[OF assms, of td rd] ler_excel_conexa_textos[OF assms, of td rd]
  unfolding Let_def obrig_banco_def obrig_conexa_def by blast

theorem C7_witness:
  "ler_excel_banco sem_datas exato
     [(Rotulo ''Data'', [Texto ''01/02/2024'']), (Rotulo ''Tipo'', [Texto ''PIX''])] =
     Inl (ValueError [''Valor''] [Rotulo ''Data'', Rotulo ''Tipo'']) \<and>
   ler_excel_conexa sem_datas exato [(Rotulo ''Fornecedor'', [Texto ''A''])] =
     Inl (ValueError [Quitacao, ''Valor''] [Rotulo ''Fornecedor'']) \<and>
   ler_excel_banco sem_datas exato
     [(Rotulo ''Valor'', [Numero 5]), (Rotulo ''Data'', [Texto ''01/02/2024''])] =
     Inr [(Vazio, Vazio, None, Some (Finito 5))]"
  using C7_missing_columns
    [of "[(Rotulo ''Data'', [Texto ''01/02/2024'']), (Rotulo ''Tipo'', [Texto ''PIX''])]"
        "[''Data'', ''Tipo'']" sem_datas exato]
  by (simp add: avaliar_leitura)

text \<open>
  C8, as claimed, fails: the comma of \<open>1.234,56\<close> is replaced by a point, the point
  that separates the thousands stays, and \<open>1.234.56\<close> is not a number, so the cell
  becomes the missing value.
\<close>

theorem C8_counterexample:
  "replace_comma ''1.234,56'' = ''1.234.56'' \<and>
   to_numeric exato (Texto ''1.234,56'') = None \<and>
   ler_excel_banco sem_datas exato
     [(Rotulo ''Data'', [Texto ''01/02/2024'']), (Rotulo ''Valor'', [Texto ''1.234,56''])] =
     Inr [(Vazio, Vazio, None, None)]"
  by (simp add: avaliar_leitura avaliar_numero)

text \<open>
  C8, amended. A value written as digits, a comma and digits (a comma as decimal
  separator, no thousands separator, at least one digit) is converted as the same digits
  with a point in the place of the comma: the result is what the parser makes of these
  digits with the decimal point there, so \<open>1234,56\<close> is read as 1234.56. With digits and
  a point separating the thousands before it, as in \<open>1.234,56\<close>, the value is read as
  the missing value, whatever the parser makes of digits.
\<close>

theorem C8_comma_decimal:
  assumes "list_all isdigit_ascii ip" "list_all isdigit_ascii fp" "ip @ fp \<noteq> []"
    "list_all isdigit_ascii a"
  shows "to_numeric rd (Texto (ip @ '','' @ fp)) = rd (ip @ fp) (- int (length fp)) \<and>
         to_numeric rd (Texto (ip @ '','' @ fp)) = to_numeric rd (Texto (ip @ ''.'' @ fp)) \<and>
         to_numeric rd (Texto (a @ ''.'' @ ip @ '','' @ fp)) = None"
proof -
  have r: "replace_comma (ip @ '','' @ fp) = ip @ ''.'' @ fp"
    "replace_comma (ip @ ''.'' @ fp) = ip @ ''.'' @ fp"
    "replace_comma (a @ ''.'' @ ip @ '','' @ fp) = a @ ''.'' @ ip @ ''.'' @ fp"
    by (simp_all only: replace_comma_append replace_comma_virgula
        digitos_nao_virgula[OF assms(1)] digitos_nao_virgula[OF assms(2)]
        digitos_nao_virgula[OF assms(4)])
  have i: "infinity_spelling (ip @ ''.'' @ fp) = None"
    "infinity_spelling (a @ ''.'' @ ip @ ''.'' @ fp) = None"
    by (simp_all add: infinity_spelling_ponto)
  have d: "floatify rd (ip @ ''.'' @ fp) = rd (ip @ fp) (- int (length fp))"
    using to_double_decimal[OF assms(1,2,3), of rd] i(1)
    by (cases "rd (ip @ fp) (- int (length fp))") (simp_all add: floatify_def)
  have t: "floatify rd (a @ ''.'' @ ip @ ''.'' @ fp) = None"
    using to_double_dois_pontos[OF assms(4,1), of rd fp] i(2) by (simp add: floatify_def)
  show ?thesis by (simp only: to_numeric.simps r d t)
qed

theorem C8_witness:
  "list_all isdigit_ascii ''1234'' \<and> list_all isdigit_ascii ''56'' \<and>
   to_numeric exato (Texto ''1234,56'') = Some (Finito (123456 / 100)) \<and>
   to_numeric exato (Texto ''1234,56'') = to_numeric exato (Texto ''1234.56'') \<and>
   to_numeric exato (Texto ''1.234,56'') = None"
  using C8_comma_decimal[of "''1234''" "''56''" "''1''" exato]
    C8_comma_decimal[of "''234''" "''56''" "''1''" exato]
  by (simp add: avaliar_numero)

text \<open>
  C9, as claimed, fails: labels that differ from the required names by letter case only
  are not found, and the reader raises the error of the missing columns.
\<close>

theorem C9_counterexample:
  "ler_excel_banco sem_datas exato
     [(Rotulo ''data'', [Texto ''01/02/2024'']), (Rotulo ''VALOR'', [Numero 5])] =
     Inl (ValueError [''Data'', ''Valor''] [Rotulo ''data'', Rotulo ''VALOR''])"
  by (simp add: avaliar_leitura)

text \<open>
  C9, amended. For a frame whose labels are all text, the presence check tolerates white
  space around a label and nothing else: labels are stripped and then compared exactly,
  letter case included. When every required name occurs as a label padded with white
  space only, the reader does not fail; when no stripped label is equal to a required
  name, the reader fails and the error lists that name.
\<close>

theorem C9_whitespace_only:
  assumes "columns df = map Rotulo ts"
  shows
  "((\<forall>r\<in>set [''Data'', ''Valor'']. \<exists>pre suf. list_all py_isspace pre \<and> list_all py_isspace suf \<and>
        pre @ r @ suf \<in> set ts) \<longrightarrow>
      (\<exists>rows. ler_excel_banco td rd df = Inr rows)) \<and>
   ((\<forall>r\<in>set [Quitacao, ''Valor'']. \<exists>pre suf. list_all py_isspace pre \<and> list_all py_isspace suf \<and>
        pre @ r @ suf \<in> set ts) \<longrightarrow>
      (\<exists>rows. ler_excel_conexa td rd df = Inr rows)) \<and>
   (\<forall>r\<in>set [''Data'', ''Valor'']. r \<notin> strip ` set ts \<longrightarrow>
      (\<exists>m. ler_excel_banco td rd df = Inl (ValueError m (columns df)) \<and> r \<in> set m)) \<and>
   (\<forall>r\<in>set [Quitacao, ''Valor'']. r \<notin> strip ` set ts \<longrightarrow>
      (\<exists>m. ler_excel_conexa td rd df = Inl (ValueError m (columns df)) \<and> r \<in> set m))"
proof (intro conjI impI ballI)
  assume h: "\<forall>r\<in>set [''Data'', ''Valor'']. \<exists>pre suf. list_all py_isspace pre \<and>
      list_all py_isspace suf \<and> pre @ r @ suf \<in> set ts"
  have "r \<in> strip ` set ts" if "r \<in> set [''Data'', ''Valor'']" for r
    using h that presente_strip[of _ _ r ts] by fastforce
  then have "filter (\<lambda>c. c \<notin> strip ` set ts) obrig_banco = []"
    by (simp add: obrig_banco_def)
  then show "\<exists>rows. ler_excel_banco td rd df = Inr rows"
    using ler_excel_banco_textos[OF assms, of td rd] by simp
next
  assume h: "\<forall>r\<in>set [Quitacao, ''Valor'']. \<exists>pre suf. list_all py_isspace pre \<and>
      list_all py_isspace suf \<and> pre @ r @ suf \<in> set ts"
  have "r \<in> strip ` set ts" if "r \<in> set [Quitacao, ''Valor'']" for r
    using h that presente_strip[of _ _ r ts] by fastforce
  then have "filter (\<lambda>c. c \<notin> strip ` set ts) obrig_conexa = []"
    by (simp add: obrig_conexa_def)
  then show "\<exists>rows. ler_excel_conexa td rd df = Inr rows"
    using ler_excel_conexa_textos[OF assms, of td rd] by simp
next
  fix r assume r: "r \<in> set [''Data'', ''Valor'']" "r \<notin> strip ` set ts"
  then have m: "r \<in> set (filter (\<lambda>c. c \<notin> strip ` set ts) obrig_banco)"
    by (auto simp add: obrig_banco_def)
  then have "filter (\<lambda>c. c \<notin> strip ` set ts) obrig_banco \<noteq> []"
    by (metis empty_iff empty_set)
  with ler_excel_banco_textos[OF assms, of td rd] m
  show "\<exists>m. ler_excel_banco td rd df = Inl (ValueError m (columns df)) \<and> r \<in> set m"
    by (simp only: not_False_eq_True if_True) blast
next
  fix r assume r: "r \<in> set [Quitacao, ''Valor'']" "r \<notin> strip ` set ts"
  then have m: "r \<in> set (filter (\<lambda>c. c \<notin> strip ` set ts) obrig_conexa)"
    by (auto simp add: obrig_conexa_def)
  then have "filter (\<lambda>c. c \<notin> strip ` set ts) obrig_conexa \<noteq> []"
    by (metis empty_iff empty_set)
  with ler_excel_conexa_textos[OF assms, of td rd] m
  show "\<exists>m. ler_excel_conexa td rd df = Inl (ValueError m (columns df)) \<and> r \<in> set m"
    by (simp only: not_False_eq_True if_True) blast
qed

theorem C9_witness:
  "list_all py_isspace '' '' \<and> list_all py_isspace [CHR 0x09, CHR 0x20] \<and>
   ler_excel_banco sem_datas exato
     [(Rotulo ('' '' @ ''Data'' @ []), [Texto ''01/02/2024'']),
      (Rotulo ([] @ ''Valor'' @ [CHR 0x09, CHR 0x20]), [Texto ''12,5''])] =
     Inr [(Vazio, Vazio, None, Some (Finito (25 / 2)))] \<and>
   (\<exists>m. ler_excel_banco sem_datas exato [(Rotulo ''data'', [Vazio]), (Rotulo ''Valor'', [Vazio])] =
           Inl (ValueError m [Rotulo ''data'', Rotulo ''Valor'']) \<and> ''Data'' \<in> set m)"
  using C9_whitespace_only
    [of "[(Rotulo ('' '' @ ''Data'' @ []), [Texto ''01/02/2024'']),
          (Rotulo ([] @ ''Valor'' @ [CHR 0x09, CHR 0x20]), [Texto ''12,5''])]"
        "['' '' @ ''Data'' @ [], [] @ ''Valor'' @ [CHR 0x09, CHR 0x20]]" sem_datas exato]
  by (simp add: avaliar_leitura avaliar_numero)

end
